theory Spec2Isabelle
  imports Main "HOL-Library.Word"
begin

unbundle bit_operations_syntax

section \<open>The Allwinner A10 audio PLL (PLL2) clock driver\<close>

text \<open>
  A shallow embedding of \<^verbatim>\<open>drivers/clk/sunxi/clk-a10-pll2.c\<close>.

  C types. \<^verbatim>\<open>u32\<close> and \<^verbatim>\<open>int\<close> are 32 bits wide. The width of
  \<^verbatim>\<open>unsigned long\<close> and \<^verbatim>\<open>long\<close> depends on the target (32 bits on the
  ARM targets of the driver, 64 bits on an LP64 target), so the rate type is
  \<open>'l word\<close> for an arbitrary width \<open>'l\<close>; the theorems assume
  \<open>32 \<le> LENGTH('l)\<close>, which C guarantees for \<^verbatim>\<open>long\<close>. Unsigned arithmetic
  wraps around, as \<open>+\<close> and \<open>*\<close> on words do; \<open>div\<close> on words is the unsigned,
  truncating division. A \<^verbatim>\<open>long\<close> or \<^verbatim>\<open>int\<close> result is the word holding
  its two's complement representation, read with \<open>sint\<close>.
\<close>

type_synonym u32 = "32 word"
type_synonym cint = "32 word"

subsection \<open>Register layout\<close>

definition SUN4I_PLL2_ENABLE :: nat where "SUN4I_PLL2_ENABLE = 31"
definition SUN4I_PLL2_POST_DIV :: nat where "SUN4I_PLL2_POST_DIV = 26"
definition SUN4I_PLL2_POST_DIV_MASK :: cint where "SUN4I_PLL2_POST_DIV_MASK = 0xF"
definition SUN4I_PLL2_N :: nat where "SUN4I_PLL2_N = 8"
definition SUN4I_PLL2_N_MASK :: cint where "SUN4I_PLL2_N_MASK = 0x7F"
definition SUN4I_PLL2_PRE_DIV :: nat where "SUN4I_PLL2_PRE_DIV = 0"
definition SUN4I_PLL2_PRE_DIV_MASK :: cint where "SUN4I_PLL2_PRE_DIV_MASK = 0x1F"

text \<open>The errno value behind \<^verbatim>\<open>-EINVAL\<close>.\<close>

definition EINVAL :: "'a::len word" where "EINVAL = 22"

subsection \<open>The device: one memory-mapped register\<close>

text \<open>
  \<^verbatim>\<open>struct sun4i_pll2_clk\<close> holds the address of the PLL2 control register.
  The only memory the driver's operations touch is that register, so the state
  is its current contents; \<open>readl\<close> and \<open>writel\<close> are the two accessors.
\<close>

record sun4i_pll2_clk =
  reg :: u32

definition readl :: "sun4i_pll2_clk \<Rightarrow> u32" where
  "readl clk = reg clk"

definition writel :: "u32 \<Rightarrow> sun4i_pll2_clk \<Rightarrow> sun4i_pll2_clk" where
  "writel val clk = clk\<lparr>reg := val\<rparr>"

text \<open>
  Unsigned division of the rate type. Dividing by zero is undefined in C (a trap
  on most targets): the result is \<open>None\<close> there.
\<close>

definition udiv :: "'l::len word \<Rightarrow> 'l word \<Rightarrow> 'l word option" where
  "udiv a b = (if b = 0 then None else Some (a div b))"

subsection \<open>recalc_rate\<close>

text \<open>
  Every operation takes the device and returns its result together with the
  device afterwards. The fields \<open>n\<close>, \<open>prediv\<close>, \<open>postdiv\<close> are C \<^verbatim>\<open>int\<close>s;
  in \<^verbatim>\<open>parent_rate * n\<close> the \<^verbatim>\<open>int\<close> is converted to \<^verbatim>\<open>unsigned long\<close>
  (\<open>scast\<close>, the value modulo the width).
\<close>

definition sun4i_pll2_1x_recalc_rate ::
  "sun4i_pll2_clk \<Rightarrow> 'l::len word \<Rightarrow> 'l word option \<times> sun4i_pll2_clk" where
  "sun4i_pll2_1x_recalc_rate clk parent_rate =
     (let val = readl clk;
          n = drop_bit SUN4I_PLL2_N val AND SUN4I_PLL2_N_MASK;
          prediv = drop_bit SUN4I_PLL2_PRE_DIV val AND SUN4I_PLL2_PRE_DIV_MASK;
          postdiv = drop_bit SUN4I_PLL2_POST_DIV val AND SUN4I_PLL2_POST_DIV_MASK;
          n = (if n = 0 then 1 else n);
          prediv = (if prediv = 0 then 1 else prediv);
          postdiv = (if postdiv = 0 then 1 else postdiv)
      in (case udiv (parent_rate * scast n) (scast prediv) of
            None \<Rightarrow> None
          | Some q \<Rightarrow> udiv q (scast postdiv),
          clk))"

definition sun4i_pll2_8x_recalc_rate ::
  "sun4i_pll2_clk \<Rightarrow> 'l::len word \<Rightarrow> 'l word option \<times> sun4i_pll2_clk" where
  "sun4i_pll2_8x_recalc_rate clk parent_rate =
     (let val = readl clk;
          n = drop_bit SUN4I_PLL2_N val AND SUN4I_PLL2_N_MASK;
          prediv = drop_bit SUN4I_PLL2_PRE_DIV val AND SUN4I_PLL2_PRE_DIV_MASK;
          n = (if n = 0 then 1 else n);
          prediv = (if prediv = 0 then 1 else prediv)
      in (udiv (parent_rate * 2 * scast n) (scast prediv), clk))"

definition sun4i_pll2_4x_recalc_rate ::
  "sun4i_pll2_clk \<Rightarrow> 'l::len word \<Rightarrow> 'l word option \<times> sun4i_pll2_clk" where
  "sun4i_pll2_4x_recalc_rate clk parent_rate =
     sun4i_pll2_8x_recalc_rate clk (parent_rate div 2)"

definition sun4i_pll2_2x_recalc_rate ::
  "sun4i_pll2_clk \<Rightarrow> 'l::len word \<Rightarrow> 'l word option \<times> sun4i_pll2_clk" where
  "sun4i_pll2_2x_recalc_rate clk parent_rate =
     sun4i_pll2_8x_recalc_rate clk (parent_rate div 4)"

subsection \<open>round_rate\<close>

text \<open>
  \<^verbatim>\<open>round_rate\<close> returns a \<^verbatim>\<open>long\<close> and may store through the pointer
  \<^verbatim>\<open>parent_rate\<close>: the result is the returned \<^verbatim>\<open>long\<close>, the value at
  \<^verbatim>\<open>*parent_rate\<close> afterwards, and the device.
\<close>

definition sun4i_pll2_1x_round_rate ::
  "sun4i_pll2_clk \<Rightarrow> 'l::len word \<Rightarrow> 'l word \<Rightarrow> 'l word \<times> 'l word \<times> sun4i_pll2_clk" where
  "sun4i_pll2_1x_round_rate clk rate parent_rate =
     (if rate < 22579200 then (- EINVAL, parent_rate, clk)
      else if rate \<ge> 22579200 \<and> rate < 24576000 then (22579200, parent_rate, clk)
      else (24576000, parent_rate, clk))"

definition sun4i_pll2_8x_round_rate ::
  "sun4i_pll2_clk \<Rightarrow> 'l::len word \<Rightarrow> 'l word \<Rightarrow> 'l word \<times> 'l word \<times> sun4i_pll2_clk" where
  "sun4i_pll2_8x_round_rate clk rate parent_rate =
     (rate, (rate * 4) div 2, clk)"

definition sun4i_pll2_4x_round_rate ::
  "sun4i_pll2_clk \<Rightarrow> 'l::len word \<Rightarrow> 'l word \<Rightarrow> 'l word \<times> 'l word \<times> sun4i_pll2_clk" where
  "sun4i_pll2_4x_round_rate clk rate parent_rate =
     sun4i_pll2_8x_round_rate clk (rate * 2) parent_rate"

definition sun4i_pll2_2x_round_rate ::
  "sun4i_pll2_clk \<Rightarrow> 'l::len word \<Rightarrow> 'l word \<Rightarrow> 'l word \<times> 'l word \<times> sun4i_pll2_clk" where
  "sun4i_pll2_2x_round_rate clk rate parent_rate =
     sun4i_pll2_8x_round_rate clk (rate * 4) parent_rate"

subsection \<open>set_rate\<close>

text \<open>
  The masks and field values are \<^verbatim>\<open>int\<close> expressions (none of the shifts
  overflows an \<^verbatim>\<open>int\<close>), combined with the \<^verbatim>\<open>u32\<close> \<open>val\<close> bit by bit. The
  result is the returned \<^verbatim>\<open>int\<close> and the device afterwards.
\<close>

definition sun4i_pll2_set_rate ::
  "sun4i_pll2_clk \<Rightarrow> 'l::len word \<Rightarrow> 'l word \<Rightarrow> cint \<times> sun4i_pll2_clk" where
  "sun4i_pll2_set_rate clk rate parent_rate =
     (let val = readl clk;
          val = val AND NOT (push_bit SUN4I_PLL2_N SUN4I_PLL2_N_MASK);
          val = val AND NOT (push_bit SUN4I_PLL2_PRE_DIV SUN4I_PLL2_PRE_DIV_MASK);
          val = val AND NOT (push_bit SUN4I_PLL2_POST_DIV SUN4I_PLL2_POST_DIV_MASK);
          val = val OR (push_bit SUN4I_PLL2_PRE_DIV 21 OR push_bit SUN4I_PLL2_POST_DIV 4)
      in if rate = 22579200 then (0, writel (val OR push_bit SUN4I_PLL2_N 79) clk)
         else if rate = 24576000 then (0, writel (val OR push_bit SUN4I_PLL2_N 86) clk)
         else (- EINVAL, clk))"

subsection \<open>The specification's view of the register\<close>

text \<open>
  The specification describes the register by a table of bit offsets and
  widths (N: offset 8, width 7; P: offset 0, width 5; S: offset 26, width 4;
  enable: bit 31) and decodes a stored field value 0 as the effective value 1.
  These definitions follow that table, in plain arithmetic on the unsigned
  value of the register; the theorems below relate the driver's shifts and
  masks to them.
\<close>

definition spec_field :: "nat \<Rightarrow> nat \<Rightarrow> u32 \<Rightarrow> nat" where
  "spec_field offset width raw = (unat raw div 2 ^ offset) mod 2 ^ width"

definition spec_N :: "u32 \<Rightarrow> nat" where
  "spec_N raw = spec_field 8 7 raw"

definition spec_P :: "u32 \<Rightarrow> nat" where
  "spec_P raw = spec_field 0 5 raw"

definition spec_S :: "u32 \<Rightarrow> nat" where
  "spec_S raw = spec_field 26 4 raw"

definition zero_means_one :: "nat \<Rightarrow> nat" where
  "zero_means_one f = (if f = 0 then 1 else f)"

text \<open>The bit positions of the three fields, and the mask that covers them.\<close>

definition field_bits :: "nat set" where
  "field_bits = {0..4} \<union> {8..14} \<union> {26..29}"

definition FIELD_MASK :: u32 where
  "FIELD_MASK = 0x3C007F1F"

section \<open>Auxiliary facts\<close>

lemmas layout_defs =
  SUN4I_PLL2_N_def SUN4I_PLL2_N_MASK_def SUN4I_PLL2_PRE_DIV_def SUN4I_PLL2_PRE_DIV_MASK_def
  SUN4I_PLL2_POST_DIV_def SUN4I_PLL2_POST_DIV_MASK_def SUN4I_PLL2_ENABLE_def

subsection \<open>Widths and numerals of the rate type\<close>

lemma len32: "32 \<le> LENGTH('l::len) \<Longrightarrow> (2::nat) ^ 32 \<le> 2 ^ LENGTH('l)"
  by (rule power_increasing) simp_all

lemma unat_numeral_ulong:
  assumes "32 \<le> LENGTH('l::len)" and "numeral b < (2::nat) ^ 32"
  shows "unat (numeral b :: 'l word) = numeral b"
proof -
  have "numeral b < (2::nat) ^ LENGTH('l)"
    using assms(2) len32 [OF assms(1)] by (rule order.strict_trans2)
  then have "numeral b mod 2 ^ LENGTH('l) = (numeral b :: nat)"
    by (rule mod_less)
  then show ?thesis
    by (simp only: unat_numeral)
qed

lemma rate_eq_iff:
  fixes rate :: "'l::len word"
  assumes "32 \<le> LENGTH('l)"
  shows "rate = 22579200 \<longleftrightarrow> unat rate = 22579200"
    and "rate = 24576000 \<longleftrightarrow> unat rate = 24576000"
proof -
  have "unat (22579200 :: 'l word) = 22579200"
    by (rule unat_numeral_ulong [OF assms]) simp
  moreover have "unat (24576000 :: 'l word) = 24576000"
    by (rule unat_numeral_ulong [OF assms]) simp
  ultimately show "rate = 22579200 \<longleftrightarrow> unat rate = 22579200"
    and "rate = 24576000 \<longleftrightarrow> unat rate = 24576000"
    by (simp_all only: word_unat_eq_iff)
qed

subsection \<open>Field extraction\<close>

lemma unat_field:
  "unat (drop_bit k (v::u32) AND mask w) = spec_field k w v"
proof -
  have "unat (drop_bit k v AND mask w) = unat (take_bit w (drop_bit k v))"
    by (simp only: take_bit_eq_mask)
  also have "\<dots> = take_bit w (unat (drop_bit k v))"
    by (rule unsigned_take_bit_eq)
  also have "\<dots> = take_bit w (drop_bit k (unat v))"
    by (simp only: unat_drop_bit_eq)
  also have "\<dots> = spec_field k w v"
    by (simp only: spec_field_def take_bit_eq_mod drop_bit_eq_div)
  finally show ?thesis .
qed

lemma masks_as_mask:
  "SUN4I_PLL2_N_MASK = mask 7" "SUN4I_PLL2_PRE_DIV_MASK = mask 5"
  "SUN4I_PLL2_POST_DIV_MASK = mask 4"
  by (simp_all add: layout_defs mask_eq_exp_minus_1)

lemma unat_fields:
  "unat (drop_bit SUN4I_PLL2_N v AND SUN4I_PLL2_N_MASK) = spec_N v"
  "unat (drop_bit SUN4I_PLL2_PRE_DIV v AND SUN4I_PLL2_PRE_DIV_MASK) = spec_P v"
  "unat (drop_bit SUN4I_PLL2_POST_DIV v AND SUN4I_PLL2_POST_DIV_MASK) = spec_S v"
proof -
  show "unat (drop_bit SUN4I_PLL2_N v AND SUN4I_PLL2_N_MASK) = spec_N v"
    using unat_field [of 8 v 7]
    by (simp only: masks_as_mask SUN4I_PLL2_N_def spec_N_def)
  show "unat (drop_bit SUN4I_PLL2_PRE_DIV v AND SUN4I_PLL2_PRE_DIV_MASK) = spec_P v"
    using unat_field [of 0 v 5]
    by (simp only: masks_as_mask SUN4I_PLL2_PRE_DIV_def spec_P_def)
  show "unat (drop_bit SUN4I_PLL2_POST_DIV v AND SUN4I_PLL2_POST_DIV_MASK) = spec_S v"
    using unat_field [of 26 v 4]
    by (simp only: masks_as_mask SUN4I_PLL2_POST_DIV_def spec_S_def)
qed

lemma spec_field_less: "spec_field k w v < 2 ^ w"
  by (simp add: spec_field_def)

lemma spec_fields_less: "spec_N v < 128" "spec_P v < 32" "spec_S v < 16"
  using spec_field_less [of 8 7 v] spec_field_less [of 0 5 v] spec_field_less [of 26 4 v]
  by (simp_all add: spec_N_def spec_P_def spec_S_def)

subsection \<open>The conversion from int to unsigned long\<close>

lemma sint_small:
  fixes w :: cint
  assumes "unat w < 128"
  shows "sint w = int (unat w)"
proof -
  have "uint w < 128"
    using assms unfolding unat_eq_nat_uint by linarith
  also have "(128::int) \<le> 2 ^ 31"
    by simp
  finally have hi: "uint w < 2 ^ 31" .
  have "- (2 ^ 31) \<le> (0::int)"
    by simp
  also have "0 \<le> uint w"
    by simp
  finally have lo: "- (2 ^ 31) \<le> uint w" .
  have "signed_take_bit 31 (uint w) = uint w"
    using lo hi by (rule signed_take_bit_int_eq_self)
  then show ?thesis
    by (simp add: sint_uint)
qed

lemma scast_small:
  fixes w :: cint
  assumes "unat w < 128"
  shows "(scast w :: 'l::len word) = of_nat (unat w)"
proof -
  have "(scast w :: 'l word) = word_of_int (int (unat w))"
    by (simp only: scast_eq sint_small [OF assms])
  then show ?thesis
    by (simp only: word_of_int_nat of_nat_0_le_iff nat_int)
qed

lemma unat_of_nat_ulong:
  assumes "32 \<le> LENGTH('l::len)" and "n < 2 ^ 32"
  shows "unat (of_nat n :: 'l word) = n"
proof -
  have lt: "n < 2 ^ LENGTH('l)"
    using assms(2) len32 [OF assms(1)] by (rule order.strict_trans2)
  have "unat (of_nat n :: 'l word) = n mod 2 ^ LENGTH('l)"
    by (rule unat_of_nat)
  also have "\<dots> = n"
    using lt by (rule mod_less)
  finally show ?thesis .
qed

lemma scast_effective:
  fixes f :: cint
  assumes "unat f < 128"
  shows "(scast (if f = 0 then 1 else f) :: 'l::len word) = of_nat (zero_means_one (unat f))"
proof -
  have "unat (if f = 0 then 1 else f) = zero_means_one (unat f)"
    by (simp add: zero_means_one_def unat_eq_0)
  moreover have "unat (if f = 0 then 1 else f) < 128"
    using assms by simp
  ultimately show ?thesis
    using scast_small [of "if f = 0 then 1 else f", where 'l='l] by simp
qed

lemma effective_nonzero:
  assumes "32 \<le> LENGTH('l::len)" and "f < 128"
  shows "(of_nat (zero_means_one f) :: 'l word) \<noteq> 0"
proof -
  have "zero_means_one f < 128"
    using assms(2) by (simp add: zero_means_one_def)
  also have "(128::nat) \<le> 2 ^ 32"
    by simp
  finally have "zero_means_one f < 2 ^ 32" .
  moreover have "zero_means_one f \<noteq> 0"
    by (simp add: zero_means_one_def)
  ultimately have "unat (of_nat (zero_means_one f) :: 'l word) \<noteq> 0"
    using unat_of_nat_ulong [OF assms(1), of "zero_means_one f"] by simp
  then show ?thesis
    by (simp add: unat_eq_0)
qed

subsection \<open>set_rate, branch by branch\<close>

lemma masked_or_and:
  fixes v c m k :: "'a::len word"
  assumes "m AND k = 0"
  shows "((v AND m) OR c) AND k = c AND k"
proof -
  have "((v AND m) OR c) AND k = (v AND (m AND k)) OR (c AND k)"
    by (simp add: bit.conj_disj_distrib2 and.assoc)
  then show ?thesis by (simp add: assms)
qed

lemma set_rate_22579200:
  "rate = 22579200 \<Longrightarrow>
   sun4i_pll2_set_rate clk rate parent_rate =
     (0, clk\<lparr>reg := (reg clk AND NOT FIELD_MASK) OR 0x10004F15\<rparr>)"
  by (simp add: sun4i_pll2_set_rate_def Let_def readl_def writel_def layout_defs
      FIELD_MASK_def word_bw_assocs)

lemma set_rate_24576000:
  "rate \<noteq> 22579200 \<Longrightarrow> rate = 24576000 \<Longrightarrow>
   sun4i_pll2_set_rate clk rate parent_rate =
     (0, clk\<lparr>reg := (reg clk AND NOT FIELD_MASK) OR 0x10005615\<rparr>)"
  by (simp add: sun4i_pll2_set_rate_def Let_def readl_def writel_def layout_defs
      FIELD_MASK_def word_bw_assocs)

lemma set_rate_other:
  "rate \<noteq> 22579200 \<Longrightarrow> rate \<noteq> 24576000 \<Longrightarrow>
   sun4i_pll2_set_rate clk rate parent_rate = (- EINVAL, clk)"
  by (simp add: sun4i_pll2_set_rate_def Let_def)

lemma fields_after_79:
  "spec_N ((v AND NOT FIELD_MASK) OR 0x10004F15) = 79"
  "spec_P ((v AND NOT FIELD_MASK) OR 0x10004F15) = 21"
  "spec_S ((v AND NOT FIELD_MASK) OR 0x10004F15) = 4"
  unfolding unat_fields [symmetric] layout_defs FIELD_MASK_def
  by (simp_all add: drop_bit_or drop_bit_and masked_or_and)

lemma fields_after_86:
  "spec_N ((v AND NOT FIELD_MASK) OR 0x10005615) = 86"
  "spec_P ((v AND NOT FIELD_MASK) OR 0x10005615) = 21"
  "spec_S ((v AND NOT FIELD_MASK) OR 0x10005615) = 4"
  unfolding unat_fields [symmetric] layout_defs FIELD_MASK_def
  by (simp_all add: drop_bit_or drop_bit_and masked_or_and)

lemma frame_after:
  "((v AND NOT FIELD_MASK) OR 0x10004F15) AND NOT FIELD_MASK = v AND NOT FIELD_MASK"
  "((v AND NOT FIELD_MASK) OR 0x10005615) AND NOT FIELD_MASK = v AND NOT FIELD_MASK"
  by (simp_all add: FIELD_MASK_def bit.conj_disj_distrib2 and.assoc)

lemma FIELD_MASK_bits: "bit FIELD_MASK i \<longleftrightarrow> i \<in> field_bits"
proof -
  have eq: "FIELD_MASK = push_bit 0 (mask 5) OR push_bit 8 (mask 7) OR push_bit 26 (mask 4)"
    by (simp add: FIELD_MASK_def mask_eq_exp_minus_1)
  show ?thesis
    unfolding eq by (simp only: bit_simps field_bits_def) auto
qed

lemma EINVAL_neq_0: "(- EINVAL :: cint) \<noteq> 0"
  by (simp add: EINVAL_def)

subsection \<open>Signed readings and comparisons of the rate type\<close>

lemma len31: "32 \<le> LENGTH('l::len) \<Longrightarrow> (2::int) ^ 31 \<le> 2 ^ (LENGTH('l) - 1)"
  by (rule power_increasing) simp_all

lemma sint_ulong_small:
  fixes w :: "'l::len word"
  assumes "32 \<le> LENGTH('l)" and "unat w < 2147483648"
  shows "sint w = int (unat w)"
proof -
  have "uint w < 2147483648"
    using assms(2) unfolding unat_eq_nat_uint by linarith
  also have "(2147483648::int) = 2 ^ 31"
    by simp
  also have "\<dots> \<le> 2 ^ (LENGTH('l) - 1)"
    using assms(1) by (rule len31)
  finally have hi: "uint w < 2 ^ (LENGTH('l) - 1)" .
  have "- (2 ^ (LENGTH('l) - 1)) \<le> (0::int)"
    by simp
  also have "0 \<le> uint w"
    by simp
  finally have lo: "- (2 ^ (LENGTH('l) - 1)) \<le> uint w" .
  have "signed_take_bit (LENGTH('l) - 1) (uint w) = uint w"
    using lo hi by (rule signed_take_bit_int_eq_self)
  then show ?thesis
    by (simp add: sint_uint)
qed

lemma sint_minus_EINVAL:
  assumes "32 \<le> LENGTH('l::len)"
  shows "sint (- EINVAL :: 'l word) = - 22"
proof -
  have "(- 22 :: int) < 2 ^ 31"
    by simp
  also have "\<dots> \<le> 2 ^ (LENGTH('l) - 1)"
    using assms by (rule len31)
  finally have hi: "(- 22 :: int) < 2 ^ (LENGTH('l) - 1)" .
  have "- (2 ^ (LENGTH('l) - 1)) \<le> - ((2::int) ^ 31)"
    using len31 [OF assms] by simp
  also have "\<dots> \<le> - 22"
    by simp
  finally have lo: "- (2 ^ (LENGTH('l) - 1)) \<le> (- 22 :: int)" .
  have "signed_take_bit (LENGTH('l) - 1) (- 22 :: int) = - 22"
    using lo hi by (rule signed_take_bit_int_eq_self)
  moreover have "(- EINVAL :: 'l word) = word_of_int (- 22)"
    by (simp add: EINVAL_def)
  ultimately show ?thesis
    by (simp only: sint_sbintrunc')
qed

lemma rate_less_iff:
  fixes rate :: "'l::len word"
  assumes "32 \<le> LENGTH('l)"
  shows "rate < 22579200 \<longleftrightarrow> unat rate < 22579200"
    and "rate < 24576000 \<longleftrightarrow> unat rate < 24576000"
proof -
  have "unat (22579200 :: 'l word) = 22579200"
    by (rule unat_numeral_ulong [OF assms]) simp
  moreover have "unat (24576000 :: 'l word) = 24576000"
    by (rule unat_numeral_ulong [OF assms]) simp
  ultimately show "rate < 22579200 \<longleftrightarrow> unat rate < 22579200"
    and "rate < 24576000 \<longleftrightarrow> unat rate < 24576000"
    by (simp_all only: word_less_nat_alt)
qed

subsection \<open>recalc_rate in terms of the decoded fields\<close>

lemma effective_casts:
  "(scast (if drop_bit SUN4I_PLL2_N v AND SUN4I_PLL2_N_MASK = 0 then 1
           else drop_bit SUN4I_PLL2_N v AND SUN4I_PLL2_N_MASK) :: 'l::len word)
     = of_nat (zero_means_one (spec_N v))"
  "(scast (if drop_bit SUN4I_PLL2_PRE_DIV v AND SUN4I_PLL2_PRE_DIV_MASK = 0 then 1
           else drop_bit SUN4I_PLL2_PRE_DIV v AND SUN4I_PLL2_PRE_DIV_MASK) :: 'l::len word)
     = of_nat (zero_means_one (spec_P v))"
  "(scast (if drop_bit SUN4I_PLL2_POST_DIV v AND SUN4I_PLL2_POST_DIV_MASK = 0 then 1
           else drop_bit SUN4I_PLL2_POST_DIV v AND SUN4I_PLL2_POST_DIV_MASK) :: 'l::len word)
     = of_nat (zero_means_one (spec_S v))"
proof -
  have "unat (drop_bit SUN4I_PLL2_N v AND SUN4I_PLL2_N_MASK) < 128"
    using spec_fields_less(1) [of v] by (simp only: unat_fields)
  then show "(scast (if drop_bit SUN4I_PLL2_N v AND SUN4I_PLL2_N_MASK = 0 then 1
           else drop_bit SUN4I_PLL2_N v AND SUN4I_PLL2_N_MASK) :: 'l::len word)
     = of_nat (zero_means_one (spec_N v))"
    by (simp only: scast_effective unat_fields)
  have "unat (drop_bit SUN4I_PLL2_PRE_DIV v AND SUN4I_PLL2_PRE_DIV_MASK) < 32"
    using spec_fields_less(2) [of v] by (simp only: unat_fields)
  then have "unat (drop_bit SUN4I_PLL2_PRE_DIV v AND SUN4I_PLL2_PRE_DIV_MASK) < 128"
    by simp
  then show "(scast (if drop_bit SUN4I_PLL2_PRE_DIV v AND SUN4I_PLL2_PRE_DIV_MASK = 0 then 1
           else drop_bit SUN4I_PLL2_PRE_DIV v AND SUN4I_PLL2_PRE_DIV_MASK) :: 'l::len word)
     = of_nat (zero_means_one (spec_P v))"
    by (simp only: scast_effective unat_fields)
  have "unat (drop_bit SUN4I_PLL2_POST_DIV v AND SUN4I_PLL2_POST_DIV_MASK) < 16"
    using spec_fields_less(3) [of v] by (simp only: unat_fields)
  then have "unat (drop_bit SUN4I_PLL2_POST_DIV v AND SUN4I_PLL2_POST_DIV_MASK) < 128"
    by simp
  then show "(scast (if drop_bit SUN4I_PLL2_POST_DIV v AND SUN4I_PLL2_POST_DIV_MASK = 0 then 1
           else drop_bit SUN4I_PLL2_POST_DIV v AND SUN4I_PLL2_POST_DIV_MASK) :: 'l::len word)
     = of_nat (zero_means_one (spec_S v))"
    by (simp only: scast_effective unat_fields)
qed

lemma effective_fields_nonzero:
  assumes "32 \<le> LENGTH('l::len)"
  shows "(of_nat (zero_means_one (spec_N v)) :: 'l word) \<noteq> 0"
    and "(of_nat (zero_means_one (spec_P v)) :: 'l word) \<noteq> 0"
    and "(of_nat (zero_means_one (spec_S v)) :: 'l word) \<noteq> 0"
proof -
  have "spec_N v < 128" "spec_P v < 128" "spec_S v < 128"
    using spec_fields_less [of v] by simp_all
  then show "(of_nat (zero_means_one (spec_N v)) :: 'l word) \<noteq> 0"
    and "(of_nat (zero_means_one (spec_P v)) :: 'l word) \<noteq> 0"
    and "(of_nat (zero_means_one (spec_S v)) :: 'l word) \<noteq> 0"
    by (simp_all only: effective_nonzero [OF assms] not_False_eq_True)
qed

lemma recalc_1x_eq:
  fixes parent_rate :: "'l::len word"
  assumes "32 \<le> LENGTH('l)"
  shows "sun4i_pll2_1x_recalc_rate clk parent_rate =
           (Some (parent_rate * of_nat (zero_means_one (spec_N (reg clk)))
                    div of_nat (zero_means_one (spec_P (reg clk)))
                    div of_nat (zero_means_one (spec_S (reg clk)))), clk)"
  unfolding sun4i_pll2_1x_recalc_rate_def Let_def readl_def effective_casts udiv_def
  by (simp add: effective_fields_nonzero [OF assms])

lemma recalc_8x_eq:
  fixes parent_rate :: "'l::len word"
  assumes "32 \<le> LENGTH('l)"
  shows "sun4i_pll2_8x_recalc_rate clk parent_rate =
           (Some (parent_rate * 2 * of_nat (zero_means_one (spec_N (reg clk)))
                    div of_nat (zero_means_one (spec_P (reg clk)))), clk)"
  unfolding sun4i_pll2_8x_recalc_rate_def Let_def readl_def effective_casts udiv_def
  by (simp add: effective_fields_nonzero [OF assms])

lemma unat_effective:
  assumes "32 \<le> LENGTH('l::len)"
  shows "unat (of_nat (zero_means_one (spec_N v)) :: 'l word) = zero_means_one (spec_N v)"
    and "unat (of_nat (zero_means_one (spec_P v)) :: 'l word) = zero_means_one (spec_P v)"
    and "unat (of_nat (zero_means_one (spec_S v)) :: 'l word) = zero_means_one (spec_S v)"
proof -
  have small: "zero_means_one f < 2 ^ 32" if "f < 128" for f
  proof -
    have "zero_means_one f < 128"
      using that by (simp add: zero_means_one_def)
    also have "(128::nat) \<le> 2 ^ 32"
      by simp
    finally show ?thesis .
  qed
  have "spec_N v < 128" "spec_P v < 128" "spec_S v < 128"
    using spec_fields_less [of v] by simp_all
  then have "zero_means_one (spec_N v) < 2 ^ 32" "zero_means_one (spec_P v) < 2 ^ 32"
    "zero_means_one (spec_S v) < 2 ^ 32"
    by (simp_all only: small)
  then show "unat (of_nat (zero_means_one (spec_N v)) :: 'l word) = zero_means_one (spec_N v)"
    and "unat (of_nat (zero_means_one (spec_P v)) :: 'l word) = zero_means_one (spec_P v)"
    and "unat (of_nat (zero_means_one (spec_S v)) :: 'l word) = zero_means_one (spec_S v)"
    by (simp_all only: unat_of_nat_ulong [OF assms])
qed

lemma effective_bounds:
  "1 \<le> zero_means_one (spec_N v) \<and> zero_means_one (spec_N v) \<le> 127"
  "1 \<le> zero_means_one (spec_P v) \<and> zero_means_one (spec_P v) \<le> 31"
  "1 \<le> zero_means_one (spec_S v) \<and> zero_means_one (spec_S v) \<le> 15"
  using spec_fields_less [of v] by (simp_all add: zero_means_one_def)

lemma unat_recalc_1x:
  fixes parent_rate :: "'l::len word"
  assumes "32 \<le> LENGTH('l)"
  shows "unat (parent_rate * of_nat (zero_means_one (spec_N v))
                 div of_nat (zero_means_one (spec_P v))
                 div of_nat (zero_means_one (spec_S v)))
         = (unat parent_rate * zero_means_one (spec_N v)) mod 2 ^ LENGTH('l)
             div zero_means_one (spec_P v) div zero_means_one (spec_S v)"
  by (simp only: unat_div unat_word_ariths(2) unat_effective [OF assms])

lemma unat_recalc_8x:
  fixes parent_rate :: "'l::len word"
  assumes "32 \<le> LENGTH('l)"
  shows "unat (parent_rate * 2 * of_nat (zero_means_one (spec_N v))
                 div of_nat (zero_means_one (spec_P v)))
         = (unat parent_rate * 2 * zero_means_one (spec_N v)) mod 2 ^ LENGTH('l)
             div zero_means_one (spec_P v)"
proof -
  have "parent_rate * 2 * of_nat (zero_means_one (spec_N v))
      = parent_rate * (of_nat (2 * zero_means_one (spec_N v)) :: 'l word)"
    by simp
  moreover have "unat (of_nat (2 * zero_means_one (spec_N v)) :: 'l word)
      = 2 * zero_means_one (spec_N v)"
  proof (rule unat_of_nat_ulong [OF assms])
    have "2 * zero_means_one (spec_N v) \<le> 254"
      using effective_bounds(1) [of v] by simp
    also have "(254::nat) < 2 ^ 32"
      by simp
    finally show "2 * zero_means_one (spec_N v) < 2 ^ 32" .
  qed
  ultimately have "unat (parent_rate * 2 * of_nat (zero_means_one (spec_N v)))
      = (unat parent_rate * (2 * zero_means_one (spec_N v))) mod 2 ^ LENGTH('l)"
    by (simp only: unat_word_ariths(2))
  then show ?thesis
    by (simp only: unat_div unat_effective [OF assms] mult.assoc)
qed

subsection \<open>Arithmetic of the derived views\<close>

lemma mod_ulong:
  assumes "32 \<le> LENGTH('l::len)" and "n < (2::nat) ^ 32"
  shows "n mod 2 ^ LENGTH('l) = n"
proof -
  have "n < 2 ^ LENGTH('l)"
    using assms(2) len32 [OF assms(1)] by (rule order.strict_trans2)
  then show ?thesis
    by (rule mod_less)
qed

lemma div_scaled:
  fixes m P c :: nat
  assumes "0 < c"
  shows "(c * m) div P div c = m div P"
proof -
  have "(c * m) div P div c = (c * m) div (c * P)"
    by (simp only: div_mult2_eq mult.commute [of c P])
  also have "\<dots> = m div P"
    using assms by simp
  finally show ?thesis .
qed

lemma recalc_8x_scaled:
  fixes parent_rate :: "'l::len word"
  assumes len: "32 \<le> LENGTH('l)"
    and fits: "unat parent_rate * 2 * zero_means_one (spec_N v) < 2 ^ LENGTH('l)"
    and c: "c = 2 \<or> c = 4"
    and dvd: "c dvd unat parent_rate"
  shows "(parent_rate div of_nat c) * 2 * of_nat (zero_means_one (spec_N v))
            div of_nat (zero_means_one (spec_P v))
         = (parent_rate * 2 * of_nat (zero_means_one (spec_N v))
            div of_nat (zero_means_one (spec_P v))) div (of_nat c :: 'l word)"
proof -
  let ?N = "zero_means_one (spec_N v)" and ?P = "zero_means_one (spec_P v)"
  obtain k where k: "unat parent_rate = c * k"
    using dvd by (rule dvdE)
  have cpos: "0 < c" using c by auto
  have "c < 2 ^ 32" using c by auto
  then have uc: "unat (of_nat c :: 'l word) = c"
    by (rule unat_of_nat_ulong [OF len])
  have uq: "unat (parent_rate div of_nat c) = k"
    using cpos by (simp only: unat_div uc k nonzero_mult_div_cancel_left)
  have "k * 2 * ?N \<le> c * k * 2 * ?N"
    using cpos by simp
  also have "\<dots> < 2 ^ LENGTH('l)"
    using fits by (simp only: k)
  finally have small: "k * 2 * ?N < 2 ^ LENGTH('l)" .
  have lhs: "unat ((parent_rate div of_nat c) * 2 * of_nat ?N div of_nat ?P) = k * 2 * ?N div ?P"
    using small by (simp only: unat_recalc_8x [OF len] uq mod_less)
  have "unat ((parent_rate * 2 * of_nat ?N div of_nat ?P) div (of_nat c :: 'l word))
      = (unat parent_rate * 2 * ?N) div ?P div c"
    using fits by (simp only: unat_div [of _ "of_nat c"] unat_recalc_8x [OF len] uc mod_less)
  also have "\<dots> = (c * (k * 2 * ?N)) div ?P div c"
    by (simp only: k mult.assoc)
  also have "\<dots> = k * 2 * ?N div ?P"
    using cpos by (rule div_scaled)
  finally show ?thesis
    using lhs by (simp only: word_unat_eq_iff)
qed

lemma rate_times_4:
  fixes rate :: "'l::len word"
  assumes len: "32 \<le> LENGTH('l)" and fits: "unat rate * 4 < 2 ^ LENGTH('l)"
  shows "(rate * 4) div 2 = rate * 2" and "unat (rate * 2) = unat rate * 2"
proof -
  have u4: "unat (4 :: 'l word) = 4"
    by (rule unat_numeral_ulong [OF len]) simp
  have u2: "unat (2 :: 'l word) = 2"
    by (rule unat_numeral_ulong [OF len]) simp
  have "unat rate * 2 \<le> unat rate * 4"
    by simp
  also note fits
  finally have fits2: "unat rate * 2 < 2 ^ LENGTH('l)" .
  then show r2: "unat (rate * 2) = unat rate * 2"
    by (simp only: unat_word_ariths(2) u2 mod_less)
  have "unat ((rate * 4) div 2) = unat rate * 4 div 2"
    using fits by (simp only: unat_div unat_word_ariths(2) u4 u2 mod_less)
  also have "\<dots> = unat rate * 2"
    by simp
  finally show "(rate * 4) div 2 = rate * 2"
    by (simp only: word_unat_eq_iff r2)
qed

section \<open>View 1x: set_rate\<close>

text \<open>
  Claim C1. For every requested rate and every prior register value, View 1x
  \<^verbatim>\<open>set_rate\<close> commits the fixed fields P = 21 and S = 4 and selects N by exact
  match on the request: 22579200 commits N = 79, 24576000 commits N = 86 (both
  return 0), and any other request returns \<^verbatim>\<open>-EINVAL\<close> with the device as it
  was. The committed fields are read back through the specification's table.
\<close>

theorem set_rate_commits:
  fixes rate parent_rate :: "'l::len word"
  assumes "32 \<le> LENGTH('l)"
  shows "(unat rate = 22579200 \<longrightarrow>
            fst (sun4i_pll2_set_rate clk rate parent_rate) = 0 \<and>
            spec_N (readl (snd (sun4i_pll2_set_rate clk rate parent_rate))) = 79 \<and>
            spec_P (readl (snd (sun4i_pll2_set_rate clk rate parent_rate))) = 21 \<and>
            spec_S (readl (snd (sun4i_pll2_set_rate clk rate parent_rate))) = 4) \<and>
         (unat rate = 24576000 \<longrightarrow>
            fst (sun4i_pll2_set_rate clk rate parent_rate) = 0 \<and>
            spec_N (readl (snd (sun4i_pll2_set_rate clk rate parent_rate))) = 86 \<and>
            spec_P (readl (snd (sun4i_pll2_set_rate clk rate parent_rate))) = 21 \<and>
            spec_S (readl (snd (sun4i_pll2_set_rate clk rate parent_rate))) = 4) \<and>
         (unat rate \<noteq> 22579200 \<and> unat rate \<noteq> 24576000 \<longrightarrow>
            sun4i_pll2_set_rate clk rate parent_rate = (- EINVAL, clk))"
proof (intro conjI impI)
  assume r: "unat rate = 22579200"
  then have eq: "rate = 22579200"
    by (simp only: rate_eq_iff [OF assms])
  note res = set_rate_22579200 [OF eq, of clk parent_rate]
  show "fst (sun4i_pll2_set_rate clk rate parent_rate) = 0"
    by (simp add: res)
  show "spec_N (readl (snd (sun4i_pll2_set_rate clk rate parent_rate))) = 79"
    by (simp add: res readl_def fields_after_79)
  show "spec_P (readl (snd (sun4i_pll2_set_rate clk rate parent_rate))) = 21"
    by (simp add: res readl_def fields_after_79)
  show "spec_S (readl (snd (sun4i_pll2_set_rate clk rate parent_rate))) = 4"
    by (simp add: res readl_def fields_after_79)
next
  assume r: "unat rate = 24576000"
  then have eq: "rate = 24576000"
    by (simp only: rate_eq_iff [OF assms])
  from r have "unat rate \<noteq> 22579200" by simp
  then have ne: "rate \<noteq> 22579200"
    by (simp only: rate_eq_iff [OF assms] not_False_eq_True)
  note res = set_rate_24576000 [OF ne eq, of clk parent_rate]
  show "fst (sun4i_pll2_set_rate clk rate parent_rate) = 0"
    by (simp add: res)
  show "spec_N (readl (snd (sun4i_pll2_set_rate clk rate parent_rate))) = 86"
    by (simp add: res readl_def fields_after_86)
  show "spec_P (readl (snd (sun4i_pll2_set_rate clk rate parent_rate))) = 21"
    by (simp add: res readl_def fields_after_86)
  show "spec_S (readl (snd (sun4i_pll2_set_rate clk rate parent_rate))) = 4"
    by (simp add: res readl_def fields_after_86)
next
  assume "unat rate \<noteq> 22579200 \<and> unat rate \<noteq> 24576000"
  then have "rate \<noteq> 22579200" "rate \<noteq> 24576000"
    by (simp_all only: rate_eq_iff [OF assms] not_False_eq_True)
  then show "sun4i_pll2_set_rate clk rate parent_rate = (- EINVAL, clk)"
    by (rule set_rate_other)
qed

theorem set_rate_commits_witness:
  "fst (sun4i_pll2_set_rate \<lparr>reg = 0x80000000\<rparr> (22579200 :: 32 word) 24000000) = 0 \<and>
   spec_N (readl (snd (sun4i_pll2_set_rate \<lparr>reg = 0x80000000\<rparr> (22579200 :: 32 word) 24000000))) = 79 \<and>
   fst (sun4i_pll2_set_rate \<lparr>reg = 0x80000000\<rparr> (24576000 :: 32 word) 24000000) = 0 \<and>
   spec_N (readl (snd (sun4i_pll2_set_rate \<lparr>reg = 0x80000000\<rparr> (24576000 :: 32 word) 24000000))) = 86 \<and>
   sun4i_pll2_set_rate \<lparr>reg = 0x80000000\<rparr> (48000 :: 32 word) 24000000 = (- EINVAL, \<lparr>reg = 0x80000000\<rparr>)"
  using set_rate_commits [where 'l=32, of 22579200 "\<lparr>reg = 0x80000000\<rparr>" 24000000]
    set_rate_commits [where 'l=32, of 24576000 "\<lparr>reg = 0x80000000\<rparr>" 24000000]
    set_rate_commits [where 'l=32, of 48000 "\<lparr>reg = 0x80000000\<rparr>" 24000000]
  by simp

text \<open>
  Claim C3. \<^verbatim>\<open>set_rate\<close> returns \<^verbatim>\<open>-EINVAL\<close> exactly when the request matches
  neither 22579200 nor 24576000, and whenever it does the device, and so the
  32-bit register, is what it was before the call.
\<close>

theorem set_rate_error_leaves_register:
  fixes rate parent_rate :: "'l::len word"
  assumes "32 \<le> LENGTH('l)"
  shows "(fst (sun4i_pll2_set_rate clk rate parent_rate) = - EINVAL
            \<longleftrightarrow> unat rate \<noteq> 22579200 \<and> unat rate \<noteq> 24576000) \<and>
         (fst (sun4i_pll2_set_rate clk rate parent_rate) = - EINVAL
            \<longrightarrow> snd (sun4i_pll2_set_rate clk rate parent_rate) = clk \<and>
                readl (snd (sun4i_pll2_set_rate clk rate parent_rate)) = readl clk)"
proof -
  let ?r = "sun4i_pll2_set_rate clk rate parent_rate"
  have e1: "(unat rate = 22579200) = (rate = 22579200)"
    and e2: "(unat rate = 24576000) = (rate = 24576000)"
    by (simp_all only: rate_eq_iff [OF assms])
  consider (a) "rate = 22579200" | (b) "rate \<noteq> 22579200" "rate = 24576000"
    | (c) "rate \<noteq> 22579200" "rate \<noteq> 24576000" by blast
  then have "(fst ?r = - EINVAL \<longleftrightarrow> rate \<noteq> 22579200 \<and> rate \<noteq> 24576000) \<and>
      (fst ?r = - EINVAL \<longrightarrow> snd ?r = clk \<and> readl (snd ?r) = readl clk)"
  proof cases
    case a
    have "fst ?r = 0"
      by (simp only: set_rate_22579200 [OF a] fst_conv)
    then show ?thesis
      using a EINVAL_neq_0 by (simp only: simp_thms eq_commute [of 0])
  next
    case b
    have "fst ?r = 0"
      by (simp only: set_rate_24576000 [OF b] fst_conv)
    then show ?thesis
      using b EINVAL_neq_0 by (simp only: simp_thms eq_commute [of 0])
  next
    case c
    have "?r = (- EINVAL, clk)"
      using c by (rule set_rate_other)
    then show ?thesis
      using c by (simp only: simp_thms fst_conv snd_conv)
  qed
  then show ?thesis
    unfolding e1 e2 .
qed

theorem set_rate_error_leaves_register_witness:
  "fst (sun4i_pll2_set_rate \<lparr>reg = 0x9234ABCD\<rparr> (44100 :: 32 word) 24000000) = - EINVAL \<and>
   readl (snd (sun4i_pll2_set_rate \<lparr>reg = 0x9234ABCD\<rparr> (44100 :: 32 word) 24000000)) = 0x9234ABCD"
  using set_rate_error_leaves_register [where 'l=32 and rate=44100
      and clk="\<lparr>reg = 0x9234ABCD\<rparr>" and parent_rate=24000000]
  by (simp add: readl_def)

text \<open>
  Claim C4. For every prior register value and every request, the register
  after \<^verbatim>\<open>set_rate\<close> agrees with the register before it outside the N, P and S
  fields (bits 8-14, 0-4 and 26-29): as a masked word, bit by bit at every
  position outside the fields, and in particular at the enable bit 31. On
  success the three fields hold the new values (claim C1); on failure nothing
  is written.
\<close>

theorem set_rate_preserves_other_bits:
  fixes rate parent_rate :: "'l::len word"
  shows "readl (snd (sun4i_pll2_set_rate clk rate parent_rate)) AND NOT FIELD_MASK
           = readl clk AND NOT FIELD_MASK \<and>
         (\<forall>i. i \<notin> field_bits \<longrightarrow>
            bit (readl (snd (sun4i_pll2_set_rate clk rate parent_rate))) i = bit (readl clk) i) \<and>
         (bit (readl (snd (sun4i_pll2_set_rate clk rate parent_rate))) SUN4I_PLL2_ENABLE
            = bit (readl clk) SUN4I_PLL2_ENABLE)"
proof -
  let ?v' = "readl (snd (sun4i_pll2_set_rate clk rate parent_rate))"
  consider (a) "rate = 22579200" | (b) "rate \<noteq> 22579200" "rate = 24576000"
    | (c) "rate \<noteq> 22579200" "rate \<noteq> 24576000" by blast
  then have frame: "?v' AND NOT FIELD_MASK = readl clk AND NOT FIELD_MASK"
  proof cases
    case a
    show ?thesis by (simp add: set_rate_22579200 [OF a] readl_def frame_after)
  next
    case b
    show ?thesis by (simp add: set_rate_24576000 [OF b] readl_def frame_after)
  next
    case c
    show ?thesis by (simp add: set_rate_other [OF c])
  qed
  have bits: "bit ?v' i = bit (readl clk) i" if "i \<notin> field_bits" for i
  proof -
    have "bit (?v' AND NOT FIELD_MASK) i = bit (readl clk AND NOT FIELD_MASK) i"
      by (simp only: frame)
    then show ?thesis
      using that by (auto simp add: bit_and_iff bit_not_iff FIELD_MASK_bits dest: bit_imp_le_length)
  qed
  have "SUN4I_PLL2_ENABLE \<notin> field_bits"
    by (simp add: SUN4I_PLL2_ENABLE_def field_bits_def)
  with frame bits show ?thesis by blast
qed

theorem set_rate_preserves_other_bits_witness:
  "(5::nat) \<notin> field_bits \<and>
   bit (readl (snd (sun4i_pll2_set_rate \<lparr>reg = 0xFFFFFFFF\<rparr> (22579200 :: 32 word) 24000000))) 5 \<and>
   bit (readl (snd (sun4i_pll2_set_rate \<lparr>reg = 0xFFFFFFFF\<rparr> (22579200 :: 32 word) 24000000))) 31 \<and>
   readl (snd (sun4i_pll2_set_rate \<lparr>reg = 0xFFFFFFFF\<rparr> (22579200 :: 32 word) 24000000))
     AND NOT FIELD_MASK = 0xC3FF80E0"
  using set_rate_preserves_other_bits [where 'l=32 and rate=22579200
      and clk="\<lparr>reg = 0xFFFFFFFF\<rparr>" and parent_rate=24000000]
  by (simp add: field_bits_def readl_def FIELD_MASK_def SUN4I_PLL2_ENABLE_def)

section \<open>View 1x: round_rate\<close>

text \<open>
  Claim C2. For every requested rate \<open>x\<close>, View 1x \<^verbatim>\<open>round_rate\<close> returns
  \<^verbatim>\<open>-EINVAL\<close> when \<open>x\<close> is in [0, 22579199], returns 22579200 when \<open>x\<close> is in
  [22579200, 24575999], and returns 24576000 for every \<open>x \<ge> 24576000\<close>, however
  large. The second conjunct reads the returned \<^verbatim>\<open>long\<close> as a signed number:
  the error is the negative value -22, the two rates are themselves.
\<close>

theorem round_rate_1x_policy:
  fixes rate parent_rate :: "'l::len word"
  assumes "32 \<le> LENGTH('l)"
  shows "fst (sun4i_pll2_1x_round_rate clk rate parent_rate) =
           (if unat rate < 22579200 then - EINVAL
            else if unat rate < 24576000 then 22579200
            else 24576000) \<and>
         sint (fst (sun4i_pll2_1x_round_rate clk rate parent_rate)) =
           (if unat rate < 22579200 then - 22
            else if unat rate < 24576000 then 22579200
            else 24576000)"
proof -
  have u1: "unat (22579200 :: 'l word) = 22579200"
    by (rule unat_numeral_ulong [OF assms]) simp
  have u2: "unat (24576000 :: 'l word) = 24576000"
    by (rule unat_numeral_ulong [OF assms]) simp
  have "unat (22579200 :: 'l word) < 2147483648"
    unfolding u1 by simp
  then have "sint (22579200 :: 'l word) = int (unat (22579200 :: 'l word))"
    by (rule sint_ulong_small [OF assms])
  then have s1: "sint (22579200 :: 'l word) = 22579200"
    by (simp only: u1 of_nat_numeral)
  have "unat (24576000 :: 'l word) < 2147483648"
    unfolding u2 by simp
  then have "sint (24576000 :: 'l word) = int (unat (24576000 :: 'l word))"
    by (rule sint_ulong_small [OF assms])
  then have s2: "sint (24576000 :: 'l word) = 24576000"
    by (simp only: u2 of_nat_numeral)
  have le: "(22579200 \<le> rate) = (22579200 \<le> unat rate)"
    by (simp only: word_le_nat_alt u1)
  have word: "fst (sun4i_pll2_1x_round_rate clk rate parent_rate) =
           (if unat rate < 22579200 then - EINVAL
            else if unat rate < 24576000 then 22579200
            else 24576000)"
    unfolding sun4i_pll2_1x_round_rate_def rate_less_iff [OF assms] le by simp
  show ?thesis
    unfolding word by (simp only: s1 s2 sint_minus_EINVAL [OF assms] if_distrib [of sint] simp_thms)
qed

theorem round_rate_1x_policy_witness:
  "fst (sun4i_pll2_1x_round_rate \<lparr>reg = 0\<rparr> (22579199 :: 32 word) 0) = - EINVAL \<and>
   fst (sun4i_pll2_1x_round_rate \<lparr>reg = 0\<rparr> (22579200 :: 32 word) 0) = 22579200 \<and>
   fst (sun4i_pll2_1x_round_rate \<lparr>reg = 0\<rparr> (24575999 :: 32 word) 0) = 22579200 \<and>
   fst (sun4i_pll2_1x_round_rate \<lparr>reg = 0\<rparr> (24576000 :: 32 word) 0) = 24576000 \<and>
   fst (sun4i_pll2_1x_round_rate \<lparr>reg = 0\<rparr> (4294967295 :: 32 word) 0) = 24576000 \<and>
   sint (fst (sun4i_pll2_1x_round_rate \<lparr>reg = 0\<rparr> (0 :: 32 word) 0)) = - 22"
  using round_rate_1x_policy [where 'l=32 and clk="\<lparr>reg = 0\<rparr>" and rate=22579199 and parent_rate=0]
    round_rate_1x_policy [where 'l=32 and clk="\<lparr>reg = 0\<rparr>" and rate=22579200 and parent_rate=0]
    round_rate_1x_policy [where 'l=32 and clk="\<lparr>reg = 0\<rparr>" and rate=24575999 and parent_rate=0]
    round_rate_1x_policy [where 'l=32 and clk="\<lparr>reg = 0\<rparr>" and rate=24576000 and parent_rate=0]
    round_rate_1x_policy [where 'l=32 and clk="\<lparr>reg = 0\<rparr>" and rate=4294967295 and parent_rate=0]
    round_rate_1x_policy [where 'l=32 and clk="\<lparr>reg = 0\<rparr>" and rate=0 and parent_rate=0]
  by (simp add: EINVAL_def)

section \<open>recalc_rate\<close>

text \<open>
  Claim C5. Zero means one: for every register value, the 1x and 8x
  \<^verbatim>\<open>recalc_rate\<close> compute with the effective value of each field, which is 1
  where the stored field is 0 and the stored field otherwise, each field on its
  own (\<open>zero_means_one\<close> applied to each of N, P and S). The divisors are never
  zero, so no \<^verbatim>\<open>recalc_rate\<close> of the four views divides by zero: each returns a
  rate.
\<close>

theorem recalc_rate_zero_means_one:
  fixes parent_rate :: "'l::len word"
  assumes "32 \<le> LENGTH('l)"
  shows "fst (sun4i_pll2_1x_recalc_rate clk parent_rate) =
           Some (parent_rate * of_nat (zero_means_one (spec_N (readl clk)))
                   div of_nat (zero_means_one (spec_P (readl clk)))
                   div of_nat (zero_means_one (spec_S (readl clk)))) \<and>
         fst (sun4i_pll2_8x_recalc_rate clk parent_rate) =
           Some (parent_rate * 2 * of_nat (zero_means_one (spec_N (readl clk)))
                   div of_nat (zero_means_one (spec_P (readl clk)))) \<and>
         fst (sun4i_pll2_4x_recalc_rate clk parent_rate) \<noteq> None \<and>
         fst (sun4i_pll2_2x_recalc_rate clk parent_rate) \<noteq> None \<and>
         (of_nat (zero_means_one (spec_N (readl clk))) :: 'l word) \<noteq> 0 \<and>
         (of_nat (zero_means_one (spec_P (readl clk))) :: 'l word) \<noteq> 0 \<and>
         (of_nat (zero_means_one (spec_S (readl clk))) :: 'l word) \<noteq> 0"
  by (simp add: sun4i_pll2_4x_recalc_rate_def sun4i_pll2_2x_recalc_rate_def
      recalc_1x_eq [OF assms] recalc_8x_eq [OF assms] readl_def effective_fields_nonzero [OF assms])

theorem recalc_rate_zero_means_one_witness:
  "fst (sun4i_pll2_1x_recalc_rate \<lparr>reg = 0\<rparr> (24000000 :: 32 word)) = Some 24000000 \<and>
   fst (sun4i_pll2_8x_recalc_rate \<lparr>reg = 0\<rparr> (24000000 :: 32 word)) = Some 48000000 \<and>
   fst (sun4i_pll2_1x_recalc_rate \<lparr>reg = 0x00000300\<rparr> (24000000 :: 32 word)) = Some 72000000"
  using recalc_rate_zero_means_one [where 'l=32 and clk="\<lparr>reg = 0\<rparr>" and parent_rate=24000000]
    recalc_rate_zero_means_one [where 'l=32 and clk="\<lparr>reg = 0x300\<rparr>" and parent_rate=24000000]
  by (simp add: readl_def spec_N_def spec_P_def spec_S_def spec_field_def zero_means_one_def)

text \<open>
  Claim C6. For every parent rate and register value, View 1x
  \<^verbatim>\<open>recalc_rate\<close> returns \<open>((parent_rate * N) / P) / S\<close> with truncating
  division, N, P and S being the decoded fields after zero-means-one
  substitution, all at least 1. The product is formed in the rate type, so it
  is taken modulo \<open>2 ^ LENGTH('l)\<close>; where it fits the type, the result is the
  quotient of the exact product.
\<close>

theorem recalc_1x_formula:
  fixes parent_rate :: "'l::len word"
  assumes "32 \<le> LENGTH('l)"
  shows "map_option unat (fst (sun4i_pll2_1x_recalc_rate clk parent_rate)) =
           Some ((unat parent_rate * zero_means_one (spec_N (readl clk))) mod 2 ^ LENGTH('l)
                   div zero_means_one (spec_P (readl clk))
                   div zero_means_one (spec_S (readl clk))) \<and>
         (unat parent_rate * zero_means_one (spec_N (readl clk)) < 2 ^ LENGTH('l) \<longrightarrow>
            map_option unat (fst (sun4i_pll2_1x_recalc_rate clk parent_rate)) =
              Some (unat parent_rate * zero_means_one (spec_N (readl clk))
                      div zero_means_one (spec_P (readl clk))
                      div zero_means_one (spec_S (readl clk)))) \<and>
         1 \<le> zero_means_one (spec_N (readl clk)) \<and>
         1 \<le> zero_means_one (spec_P (readl clk)) \<and>
         1 \<le> zero_means_one (spec_S (readl clk))"
  using effective_bounds [of "reg clk"]
  by (simp add: recalc_1x_eq [OF assms] readl_def unat_recalc_1x [OF assms])

theorem recalc_1x_formula_witness:
  "map_option unat (fst (sun4i_pll2_1x_recalc_rate \<lparr>reg = 0x10005615\<rparr> (24000000 :: 32 word)))
     = Some 24571428"
  using recalc_1x_formula [where 'l=32 and clk="\<lparr>reg = 0x10005615\<rparr>" and parent_rate=24000000]
  by (simp add: readl_def spec_N_def spec_P_def spec_S_def spec_field_def zero_means_one_def)

text \<open>
  Claim C7, as stated, fails: the 4x and 2x views divide the parent rate
  before multiplying, so the low bits of the parent rate are lost. From the
  register 0 (N = P = 1) and the parent rate 3, View 8x gives 6, View 4x gives
  2 (not 3) and View 2x gives 0 (not 1), for a 32-bit and for a 64-bit rate
  type alike.
\<close>

theorem derived_views_counterexample:
  "fst (sun4i_pll2_8x_recalc_rate \<lparr>reg = 0\<rparr> (3 :: 32 word)) = Some 6 \<and>
   fst (sun4i_pll2_4x_recalc_rate \<lparr>reg = 0\<rparr> (3 :: 32 word)) = Some 2 \<and>
   fst (sun4i_pll2_2x_recalc_rate \<lparr>reg = 0\<rparr> (3 :: 32 word)) = Some 0 \<and>
   (2 :: 32 word) \<noteq> 6 div 2 \<and> (0 :: 32 word) \<noteq> 6 div 4 \<and>
   fst (sun4i_pll2_8x_recalc_rate \<lparr>reg = 0\<rparr> (3 :: 64 word)) = Some 6 \<and>
   fst (sun4i_pll2_4x_recalc_rate \<lparr>reg = 0\<rparr> (3 :: 64 word)) = Some 2 \<and>
   fst (sun4i_pll2_2x_recalc_rate \<lparr>reg = 0\<rparr> (3 :: 64 word)) = Some 0 \<and>
   (2 :: 64 word) \<noteq> 6 div 2 \<and> (0 :: 64 word) \<noteq> 6 div 4"
  by (simp add: sun4i_pll2_4x_recalc_rate_def sun4i_pll2_2x_recalc_rate_def
      sun4i_pll2_8x_recalc_rate_def Let_def readl_def udiv_def layout_defs)

text \<open>
  Claim C7, amended. For every register value and every parent rate, with no
  further condition, View 4x's rate is View 8x's rate at half the parent rate
  and View 2x's rate is View 8x's rate at a quarter of it (truncating). Where \<open>parent_rate * 2 * N\<close> fits
  the rate type, View 4x's rate is View 8x's rate divided by 2 whenever the
  parent rate is even, and View 2x's rate is View 8x's rate divided by 4
  whenever the parent rate is a multiple of 4, both with truncating division.
\<close>

theorem derived_views_ratio:
  fixes parent_rate :: "'l::len word"
  shows "sun4i_pll2_4x_recalc_rate clk parent_rate
           = sun4i_pll2_8x_recalc_rate clk (parent_rate div 2) \<and>
         sun4i_pll2_2x_recalc_rate clk parent_rate
           = sun4i_pll2_8x_recalc_rate clk (parent_rate div 4) \<and>
         (32 \<le> LENGTH('l) \<and>
          unat parent_rate * 2 * zero_means_one (spec_N (readl clk)) < 2 ^ LENGTH('l) \<and>
          2 dvd unat parent_rate \<longrightarrow>
            fst (sun4i_pll2_4x_recalc_rate clk parent_rate)
              = map_option (\<lambda>r. r div 2) (fst (sun4i_pll2_8x_recalc_rate clk parent_rate))) \<and>
         (32 \<le> LENGTH('l) \<and>
          unat parent_rate * 2 * zero_means_one (spec_N (readl clk)) < 2 ^ LENGTH('l) \<and>
          4 dvd unat parent_rate \<longrightarrow>
            fst (sun4i_pll2_2x_recalc_rate clk parent_rate)
              = map_option (\<lambda>r. r div 4) (fst (sun4i_pll2_8x_recalc_rate clk parent_rate)))"
proof (intro conjI impI)
  show "sun4i_pll2_4x_recalc_rate clk parent_rate
      = sun4i_pll2_8x_recalc_rate clk (parent_rate div 2)"
    by (rule sun4i_pll2_4x_recalc_rate_def)
  show "sun4i_pll2_2x_recalc_rate clk parent_rate
      = sun4i_pll2_8x_recalc_rate clk (parent_rate div 4)"
    by (rule sun4i_pll2_2x_recalc_rate_def)
next
  assume h: "32 \<le> LENGTH('l) \<and>
      unat parent_rate * 2 * zero_means_one (spec_N (readl clk)) < 2 ^ LENGTH('l) \<and>
      2 dvd unat parent_rate"
  then have len: "32 \<le> LENGTH('l)"
    and fits: "unat parent_rate * 2 * zero_means_one (spec_N (reg clk)) < 2 ^ LENGTH('l)"
    and even: "2 dvd unat parent_rate"
    by (simp_all only: readl_def)
  show "fst (sun4i_pll2_4x_recalc_rate clk parent_rate)
      = map_option (\<lambda>r. r div 2) (fst (sun4i_pll2_8x_recalc_rate clk parent_rate))"
    using recalc_8x_scaled [OF len fits _ even]
    by (simp add: sun4i_pll2_4x_recalc_rate_def recalc_8x_eq [OF len])
next
  assume h: "32 \<le> LENGTH('l) \<and>
      unat parent_rate * 2 * zero_means_one (spec_N (readl clk)) < 2 ^ LENGTH('l) \<and>
      4 dvd unat parent_rate"
  then have len: "32 \<le> LENGTH('l)"
    and fits: "unat parent_rate * 2 * zero_means_one (spec_N (reg clk)) < 2 ^ LENGTH('l)"
    and four: "4 dvd unat parent_rate"
    by (simp_all only: readl_def)
  show "fst (sun4i_pll2_2x_recalc_rate clk parent_rate)
      = map_option (\<lambda>r. r div 4) (fst (sun4i_pll2_8x_recalc_rate clk parent_rate))"
    using recalc_8x_scaled [OF len fits _ four]
    by (simp add: sun4i_pll2_2x_recalc_rate_def recalc_8x_eq [OF len])
qed

theorem derived_views_ratio_witness:
  "fst (sun4i_pll2_8x_recalc_rate \<lparr>reg = 0x10004F15\<rparr> (24000000 :: 32 word)) = Some 180571428 \<and>
   fst (sun4i_pll2_4x_recalc_rate \<lparr>reg = 0x10004F15\<rparr> (24000000 :: 32 word)) = Some 90285714 \<and>
   fst (sun4i_pll2_2x_recalc_rate \<lparr>reg = 0x10004F15\<rparr> (24000000 :: 32 word)) = Some 45142857 \<and>
   4 dvd unat (24000000 :: 32 word) \<and>
   fst (sun4i_pll2_4x_recalc_rate \<lparr>reg = 0x10004F15\<rparr> (24000000 :: 32 word))
     = map_option (\<lambda>r. r div 2) (fst (sun4i_pll2_8x_recalc_rate \<lparr>reg = 0x10004F15\<rparr> (24000000 :: 32 word))) \<and>
   fst (sun4i_pll2_2x_recalc_rate \<lparr>reg = 0x10004F15\<rparr> (24000000 :: 32 word))
     = map_option (\<lambda>r. r div 4) (fst (sun4i_pll2_8x_recalc_rate \<lparr>reg = 0x10004F15\<rparr> (24000000 :: 32 word)))"
proof -
  have len: "32 \<le> LENGTH(32)"
    by simp
  have fits: "unat (24000000 :: 32 word) * 2 * zero_means_one (spec_N (readl \<lparr>reg = 0x10004F15\<rparr>))
      < 2 ^ LENGTH(32)"
    by (simp add: readl_def spec_N_def spec_field_def zero_means_one_def)
  have d4: "4 dvd unat (24000000 :: 32 word)"
    by simp
  then have d2: "2 dvd unat (24000000 :: 32 word)"
    by simp
  have v8: "fst (sun4i_pll2_8x_recalc_rate \<lparr>reg = 0x10004F15\<rparr> (24000000 :: 32 word)) = Some 180571428"
    by (simp add: sun4i_pll2_8x_recalc_rate_def Let_def readl_def udiv_def layout_defs)
  from derived_views_ratio [where 'l=32 and clk="\<lparr>reg = 0x10004F15\<rparr>" and parent_rate=24000000]
    len fits d2 d4
  have r4: "fst (sun4i_pll2_4x_recalc_rate \<lparr>reg = 0x10004F15\<rparr> (24000000 :: 32 word))
      = map_option (\<lambda>r. r div 2) (fst (sun4i_pll2_8x_recalc_rate \<lparr>reg = 0x10004F15\<rparr> (24000000 :: 32 word)))"
    and r2: "fst (sun4i_pll2_2x_recalc_rate \<lparr>reg = 0x10004F15\<rparr> (24000000 :: 32 word))
      = map_option (\<lambda>r. r div 4) (fst (sun4i_pll2_8x_recalc_rate \<lparr>reg = 0x10004F15\<rparr> (24000000 :: 32 word)))"
    by blast+
  show ?thesis
    unfolding r4 r2 v8 using d4 by simp
qed

section \<open>set_rate followed by recalc_rate\<close>

text \<open>
  Claim C8, as stated, fails: from the register 0, \<^verbatim>\<open>set_rate\<close> with the
  request 24576000 succeeds, but \<^verbatim>\<open>recalc_rate\<close> at the parent rate 24576000
  then returns 25161142, not 24576000, for a 32-bit and for a 64-bit rate type
  alike.
\<close>

theorem set_rate_recalc_end_to_end_counterexample:
  "fst (sun4i_pll2_set_rate \<lparr>reg = 0\<rparr> (24576000 :: 32 word) 24576000) = 0 \<and>
   fst (sun4i_pll2_1x_recalc_rate
          (snd (sun4i_pll2_set_rate \<lparr>reg = 0\<rparr> (24576000 :: 32 word) 24576000))
          (24576000 :: 32 word)) = Some 25161142 \<and>
   (25161142 :: 32 word) \<noteq> 24576000 \<and>
   fst (sun4i_pll2_set_rate \<lparr>reg = 0\<rparr> (24576000 :: 64 word) 24576000) = 0 \<and>
   fst (sun4i_pll2_1x_recalc_rate
          (snd (sun4i_pll2_set_rate \<lparr>reg = 0\<rparr> (24576000 :: 64 word) 24576000))
          (24576000 :: 64 word)) = Some 25161142 \<and>
   (25161142 :: 64 word) \<noteq> 24576000"
  by (simp add: sun4i_pll2_set_rate_def sun4i_pll2_1x_recalc_rate_def Let_def readl_def
      writel_def udiv_def layout_defs)

text \<open>
  Claim C8, amended. Starting from the register 0, View 1x \<^verbatim>\<open>set_rate\<close> with
  the request 24576000 succeeds and commits N = 86, P = 21, S = 4, and View 1x
  \<^verbatim>\<open>recalc_rate\<close> at the parent rate 24576000 then returns exactly 25161142,
  which is 24576000 * 86 / 21 / 4 under truncating integer division.
\<close>

theorem set_rate_recalc_end_to_end:
  assumes "32 \<le> LENGTH('l::len)"
  shows "fst (sun4i_pll2_set_rate \<lparr>reg = 0\<rparr> (24576000 :: 'l word) 24576000) = 0 \<and>
         spec_N (readl (snd (sun4i_pll2_set_rate \<lparr>reg = 0\<rparr> (24576000 :: 'l word) 24576000))) = 86 \<and>
         spec_P (readl (snd (sun4i_pll2_set_rate \<lparr>reg = 0\<rparr> (24576000 :: 'l word) 24576000))) = 21 \<and>
         spec_S (readl (snd (sun4i_pll2_set_rate \<lparr>reg = 0\<rparr> (24576000 :: 'l word) 24576000))) = 4 \<and>
         map_option unat
           (fst (sun4i_pll2_1x_recalc_rate
                   (snd (sun4i_pll2_set_rate \<lparr>reg = 0\<rparr> (24576000 :: 'l word) 24576000))
                   (24576000 :: 'l word))) = Some 25161142 \<and>
         (24576000 * 86 div 21 div 4 :: nat) = 25161142"
proof -
  let ?v = "(0 AND NOT FIELD_MASK) OR (0x10005615 :: u32)"
  have u: "unat (24576000 :: 'l word) = 24576000"
    by (rule unat_numeral_ulong [OF assms]) simp
  have "unat (24576000 :: 'l word) \<noteq> 22579200"
    unfolding u by simp
  then have ne: "(24576000 :: 'l word) \<noteq> 22579200"
    by (simp only: rate_eq_iff [OF assms] not_False_eq_True)
  have res: "sun4i_pll2_set_rate \<lparr>reg = 0\<rparr> (24576000 :: 'l word) 24576000 = (0, \<lparr>reg = ?v\<rparr>)"
    using set_rate_24576000 [OF ne refl, of "\<lparr>reg = 0\<rparr>" 24576000] by simp
  have zmo: "zero_means_one 86 = 86" "zero_means_one 21 = 21" "zero_means_one 4 = 4"
    by (simp_all add: zero_means_one_def)
  have "(24576000 * 86 :: nat) < 2 ^ 32"
    by simp
  then have m: "(24576000 * 86 :: nat) mod 2 ^ LENGTH('l) = 24576000 * 86"
    by (rule mod_ulong [OF assms])
  have f: "spec_N ?v = 86" "spec_P ?v = 21" "spec_S ?v = 4"
    by (rule fields_after_86)+
  have "fst (sun4i_pll2_1x_recalc_rate \<lparr>reg = ?v\<rparr> (24576000 :: 'l word))
      = Some (24576000 * of_nat (zero_means_one (spec_N ?v))
                div of_nat (zero_means_one (spec_P ?v))
                div of_nat (zero_means_one (spec_S ?v)))"
    using recalc_1x_eq [OF assms, of "\<lparr>reg = ?v\<rparr>" 24576000]
    by (simp only: fst_conv sun4i_pll2_clk.select_convs)
  then have "map_option unat (fst (sun4i_pll2_1x_recalc_rate \<lparr>reg = ?v\<rparr> (24576000 :: 'l word)))
      = Some ((unat (24576000 :: 'l word) * zero_means_one (spec_N ?v)) mod 2 ^ LENGTH('l)
                div zero_means_one (spec_P ?v) div zero_means_one (spec_S ?v))"
    by (simp only: option.map unat_recalc_1x [OF assms])
  then have "map_option unat (fst (sun4i_pll2_1x_recalc_rate \<lparr>reg = ?v\<rparr> (24576000 :: 'l word)))
      = Some ((24576000 * 86) mod 2 ^ LENGTH('l) div 21 div 4)"
    by (simp only: f zmo u)
  then have rec: "map_option unat (fst (sun4i_pll2_1x_recalc_rate \<lparr>reg = ?v\<rparr> (24576000 :: 'l word)))
      = Some 25161142"
    unfolding m by simp
  show ?thesis
    unfolding res fst_conv snd_conv readl_def sun4i_pll2_clk.select_convs f rec by simp
qed

theorem set_rate_recalc_end_to_end_witness:
  "map_option unat
     (fst (sun4i_pll2_1x_recalc_rate
             (snd (sun4i_pll2_set_rate \<lparr>reg = 0\<rparr> (24576000 :: 32 word) 24576000))
             (24576000 :: 32 word))) = Some 25161142"
proof -
  have "32 \<le> LENGTH(32)"
    by simp
  from set_rate_recalc_end_to_end [OF this] show ?thesis
    by blast
qed

section \<open>View 8x: round_rate\<close>

text \<open>
  Claim C9, as stated, fails: \<open>(r * 4) / 2\<close> is not \<open>r * 2\<close> in the arithmetic
  of the rate type once \<open>r * 4\<close> wraps around. With a 32-bit rate type and
  \<open>r = 2 ^ 30\<close> the stored parent rate is 0 while \<open>r * 2 = 2 ^ 31\<close>; with a
  64-bit rate type the same happens at \<open>r = 2 ^ 62\<close>.
\<close>

theorem round_rate_8x_counterexample:
  "fst (snd (sun4i_pll2_8x_round_rate \<lparr>reg = 0\<rparr> (0x40000000 :: 32 word) 0)) = 0 \<and>
   (0x40000000 :: 32 word) * 2 = 0x80000000 \<and>
   fst (snd (sun4i_pll2_8x_round_rate \<lparr>reg = 0\<rparr> (0x40000000 :: 32 word) 0))
     \<noteq> (0x40000000 :: 32 word) * 2 \<and>
   fst (snd (sun4i_pll2_8x_round_rate \<lparr>reg = 0\<rparr> (0x4000000000000000 :: 64 word) 0)) = 0 \<and>
   fst (snd (sun4i_pll2_8x_round_rate \<lparr>reg = 0\<rparr> (0x4000000000000000 :: 64 word) 0))
     \<noteq> (0x4000000000000000 :: 64 word) * 2"
  by (simp add: sun4i_pll2_8x_round_rate_def)

text \<open>
  Claim C9, amended. For every requested rate \<open>r\<close>, View 8x \<^verbatim>\<open>round_rate\<close>
  returns \<open>r\<close> itself and stores \<open>(r * 4) / 2\<close>, computed in the arithmetic of
  the rate type, as the parent rate; this equals \<open>r * 2\<close>, with no wrap-around,
  whenever \<open>r * 4\<close> fits the rate type.
\<close>

theorem round_rate_8x_parent:
  fixes rate parent_rate :: "'l::len word"
  assumes "32 \<le> LENGTH('l)"
  shows "fst (sun4i_pll2_8x_round_rate clk rate parent_rate) = rate \<and>
         fst (snd (sun4i_pll2_8x_round_rate clk rate parent_rate)) = (rate * 4) div 2 \<and>
         (unat rate * 4 < 2 ^ LENGTH('l) \<longrightarrow>
            fst (snd (sun4i_pll2_8x_round_rate clk rate parent_rate)) = rate * 2 \<and>
            unat (fst (snd (sun4i_pll2_8x_round_rate clk rate parent_rate))) = unat rate * 2)"
  using rate_times_4 [OF assms, of rate]
  by (simp add: sun4i_pll2_8x_round_rate_def)

theorem round_rate_8x_parent_witness:
  "fst (sun4i_pll2_8x_round_rate \<lparr>reg = 0\<rparr> (22579200 :: 32 word) 0) = 22579200 \<and>
   unat (22579200 :: 32 word) * 4 < 2 ^ LENGTH(32) \<and>
   fst (snd (sun4i_pll2_8x_round_rate \<lparr>reg = 0\<rparr> (22579200 :: 32 word) 0)) = 45158400"
  using round_rate_8x_parent [where 'l=32 and clk="\<lparr>reg = 0\<rparr>" and rate=22579200 and parent_rate=0]
  by simp

section \<open>Reads and writes of the register\<close>

text \<open>
  Claim C10. Every \<^verbatim>\<open>recalc_rate\<close> and every \<^verbatim>\<open>round_rate\<close>, on each of the
  four views and for every input, returns the device it was given: the
  register is at most read. \<^verbatim>\<open>set_rate\<close> is the one operation that writes it,
  as it does from register 0 at the request 22579200.
\<close>

theorem only_set_rate_writes:
  fixes rate parent_rate :: "'l::len word"
  shows "snd (sun4i_pll2_1x_recalc_rate clk parent_rate) = clk \<and>
         snd (sun4i_pll2_2x_recalc_rate clk parent_rate) = clk \<and>
         snd (sun4i_pll2_4x_recalc_rate clk parent_rate) = clk \<and>
         snd (sun4i_pll2_8x_recalc_rate clk parent_rate) = clk \<and>
         snd (snd (sun4i_pll2_1x_round_rate clk rate parent_rate)) = clk \<and>
         snd (snd (sun4i_pll2_2x_round_rate clk rate parent_rate)) = clk \<and>
         snd (snd (sun4i_pll2_4x_round_rate clk rate parent_rate)) = clk \<and>
         snd (snd (sun4i_pll2_8x_round_rate clk rate parent_rate)) = clk \<and>
         readl (snd (sun4i_pll2_set_rate \<lparr>reg = 0\<rparr> (22579200 :: 32 word) 24000000))
           \<noteq> readl \<lparr>reg = 0\<rparr>"
proof -
  have "snd (sun4i_pll2_1x_recalc_rate clk parent_rate) = clk"
    by (simp add: sun4i_pll2_1x_recalc_rate_def Let_def)
  moreover have r8: "snd (sun4i_pll2_8x_recalc_rate clk p) = clk" for p :: "'l word"
    by (simp add: sun4i_pll2_8x_recalc_rate_def Let_def)
  moreover have "snd (sun4i_pll2_2x_recalc_rate clk parent_rate) = clk"
    by (simp only: sun4i_pll2_2x_recalc_rate_def r8)
  moreover have "snd (sun4i_pll2_4x_recalc_rate clk parent_rate) = clk"
    by (simp only: sun4i_pll2_4x_recalc_rate_def r8)
  moreover have "snd (snd (sun4i_pll2_1x_round_rate clk rate parent_rate)) = clk"
    by (simp add: sun4i_pll2_1x_round_rate_def)
  moreover have o8: "snd (snd (sun4i_pll2_8x_round_rate clk r parent_rate)) = clk" for r :: "'l word"
    by (simp add: sun4i_pll2_8x_round_rate_def)
  moreover have "snd (snd (sun4i_pll2_2x_round_rate clk rate parent_rate)) = clk"
    by (simp only: sun4i_pll2_2x_round_rate_def o8)
  moreover have "snd (snd (sun4i_pll2_4x_round_rate clk rate parent_rate)) = clk"
    by (simp only: sun4i_pll2_4x_round_rate_def o8)
  moreover have "readl (snd (sun4i_pll2_set_rate \<lparr>reg = 0\<rparr> (22579200 :: 32 word) 24000000))
      \<noteq> readl \<lparr>reg = 0\<rparr>"
    by (simp add: set_rate_22579200 readl_def FIELD_MASK_def)
  ultimately show ?thesis
    by (simp only: simp_thms)
qed

end
